theory Spec2Isabelle
  imports Main
begin

section \<open>Machine integers\<close>

text \<open>
  Go's \<open>int\<close> and \<open>int64\<close> are modelled as HOL integers with the two's-complement
  wrap-around of a 64-bit platform written out at every addition and subtraction of the
  source.  The largest \<open>int\<close> is \<open>max_int\<close>.
\<close>

definition max_int :: int where
  "max_int = 9223372036854775807"

definition wrap64 :: "int \<Rightarrow> int" where
  "wrap64 x = (x + 9223372036854775808) mod 18446744073709551616 - 9223372036854775808"

text \<open>Go's \<open>/\<close> on integers truncates towards zero (the divisor is never zero here).\<close>

definition go_quo :: "int \<Rightarrow> int \<Rightarrow> int" where
  "go_quo a b = sgn a * sgn b * (\<bar>a\<bar> div \<bar>b\<bar>)"

text \<open>\<open>len(xs)\<close> of a slice.\<close>

definition go_len :: "'a list \<Rightarrow> int" where
  "go_len xs = int (length xs)"

section \<open>Data model (state.go)\<close>

record FileInfo =
  Name :: string
  Path :: string
  IsDir :: bool
  Size :: int
  Icon :: string

text \<open>The zero value \<open>FileInfo{}\<close>.\<close>

definition FileInfo_zero :: FileInfo where
  "FileInfo_zero = \<lparr>Name = [], Path = [], IsDir = False, Size = 0, Icon = []\<rparr>"

text \<open>
  The \<open>ActionFn\<close> field of a menu entry is a function value; the five functions that
  \<open>handleEnter\<close> ever stores there are named by a constructor each.
\<close>

datatype action_fn =
    Fn_copyFullPath
  | Fn_copyRelativePath
  | Fn_viewFileContentAction
  | Fn_copyContent
  | Fn_cancel

record ActionMenuItem =
  Label :: string
  ActionFn :: action_fn

text \<open>A Go \<open>error\<close> is its message, \<open>None\<close> for \<open>nil\<close>.\<close>

type_synonym go_error = "string option"

record AppState =
  cwd :: string
  visibleFiles :: "FileInfo list"
  visibleDirs :: "FileInfo list"
  hiddenFiles :: "FileInfo list"
  hiddenDirs :: "FileInfo list"
  showHidden :: bool
  totalSize :: int
  largestFile :: FileInfo
  gitStatus :: string
  isLoadingStats :: bool
  statsError :: go_error
  visibleFoldersOriginY :: int
  visibleFilesOriginY :: int
  hiddenFoldersOriginY :: int
  hiddenFilesOriginY :: int
  visibleFoldersCursorY :: int
  visibleFilesCursorY :: int
  hiddenFoldersCursorY :: int
  hiddenFilesCursorY :: int
  isActionMenuVisible :: bool
  actionMenuItemTarget :: FileInfo
  actionMenuOptions :: "ActionMenuItem list"
  actionMenuSelectedIdx :: int
  previousFocusView :: string
  isFileContentViewVisible :: bool
  fileContentViewFileName :: string
  fileContentViewContent :: string
  fileContentViewTotalLines :: int
  fileContentViewOriginY :: int
  fileContentViewPrevFocus :: string
  helpVisible :: bool
  confirmDeleteVisible :: bool
  itemToDelete :: "FileInfo option"
  lastMessage :: string

text \<open>View names (ui.go).\<close>

definition viewFolders :: string where
  "viewFolders = ''folders''"

definition viewFiles :: string where
  "viewFiles = ''files''"

definition NewAppState :: "string \<Rightarrow> AppState" where
  "NewAppState dir =
     \<lparr>cwd = dir, visibleFiles = [], visibleDirs = [], hiddenFiles = [], hiddenDirs = [],
      showHidden = False, totalSize = - 1, largestFile = FileInfo_zero,
      gitStatus = ''Checking...'', isLoadingStats = True, statsError = None,
      visibleFoldersOriginY = 0, visibleFilesOriginY = 0,
      hiddenFoldersOriginY = 0, hiddenFilesOriginY = 0,
      visibleFoldersCursorY = 0, visibleFilesCursorY = 0,
      hiddenFoldersCursorY = 0, hiddenFilesCursorY = 0,
      isActionMenuVisible = False, actionMenuItemTarget = FileInfo_zero,
      actionMenuOptions = [], actionMenuSelectedIdx = 0, previousFocusView = [],
      isFileContentViewVisible = False, fileContentViewFileName = [],
      fileContentViewContent = [], fileContentViewTotalLines = 0,
      fileContentViewOriginY = 0, fileContentViewPrevFocus = [],
      helpVisible = False, confirmDeleteVisible = False, itemToDelete = None,
      lastMessage = []\<rparr>"

section \<open>Write operations of the state store (state.go)\<close>

definition SetDirectoryContents ::
  "AppState \<Rightarrow> FileInfo list \<Rightarrow> FileInfo list \<Rightarrow> FileInfo list \<Rightarrow> FileInfo list \<Rightarrow> AppState" where
  "SetDirectoryContents s vDirs vFiles hDirs hFiles =
     s\<lparr>visibleDirs := vDirs, visibleFiles := vFiles,
       hiddenDirs := hDirs, hiddenFiles := hFiles,
       visibleFoldersOriginY := 0, visibleFilesOriginY := 0,
       hiddenFoldersOriginY := 0, hiddenFilesOriginY := 0,
       visibleFoldersCursorY := 0, visibleFilesCursorY := 0,
       hiddenFoldersCursorY := 0, hiddenFilesCursorY := 0\<rparr>"

definition SetStatsLoading :: "AppState \<Rightarrow> AppState" where
  "SetStatsLoading s =
     s\<lparr>isLoadingStats := True, gitStatus := ''Calculating...'', totalSize := - 1,
       largestFile := FileInfo_zero, statsError := None\<rparr>"

definition SetStatsResults ::
  "AppState \<Rightarrow> int \<Rightarrow> FileInfo \<Rightarrow> string \<Rightarrow> go_error \<Rightarrow> AppState" where
  "SetStatsResults s tSize lFile gStatus err =
     (let s1 = s\<lparr>totalSize := tSize, largestFile := lFile, gitStatus := gStatus,
                  isLoadingStats := False, statsError := err\<rparr>
      in if err \<noteq> None \<and> totalSize s1 \<noteq> - 2 then s1\<lparr>totalSize := - 2\<rparr> else s1)"

definition SetMessage :: "AppState \<Rightarrow> string \<Rightarrow> AppState" where
  "SetMessage s msg = s\<lparr>lastMessage := msg\<rparr>"

definition ClearMessage :: "AppState \<Rightarrow> AppState" where
  "ClearMessage s = s\<lparr>lastMessage := []\<rparr>"

subsection \<open>Action menu\<close>

definition OpenActionMenu ::
  "AppState \<Rightarrow> FileInfo \<Rightarrow> ActionMenuItem list \<Rightarrow> string \<Rightarrow> AppState" where
  "OpenActionMenu s item options currentFocusView =
     s\<lparr>isActionMenuVisible := True, actionMenuItemTarget := item,
       actionMenuOptions := options, actionMenuSelectedIdx := 0,
       previousFocusView := currentFocusView, lastMessage := []\<rparr>"

definition CloseActionMenu :: "AppState \<Rightarrow> AppState" where
  "CloseActionMenu s =
     s\<lparr>isActionMenuVisible := False, actionMenuItemTarget := FileInfo_zero,
       actionMenuOptions := [], actionMenuSelectedIdx := - 1\<rparr>"

definition NavigateActionMenu :: "AppState \<Rightarrow> int \<Rightarrow> AppState" where
  "NavigateActionMenu s delta =
     (if \<not> isActionMenuVisible s \<or> go_len (actionMenuOptions s) = 0 then s
      else
        let s1 = s\<lparr>actionMenuSelectedIdx := wrap64 (actionMenuSelectedIdx s + delta)\<rparr>;
            s2 = (if actionMenuSelectedIdx s1 < 0
                  then s1\<lparr>actionMenuSelectedIdx := wrap64 (go_len (actionMenuOptions s1) - 1)\<rparr>
                  else s1)
        in if actionMenuSelectedIdx s2 \<ge> go_len (actionMenuOptions s2)
           then s2\<lparr>actionMenuSelectedIdx := 0\<rparr>
           else s2)"

subsection \<open>List cursor and origin\<close>

text \<open>
  \<open>moveCursorAndOrigin\<close> and \<open>setCursorAndOrigin\<close> first pick, from the view name and
  \<open>showHidden\<close>, the list and the two fields \<open>pOriginY\<close> and \<open>pCursorY\<close> point to.  The
  choice is a \<open>list_slot\<close>; reading and writing through the pointers are the four
  functions below.
\<close>

datatype list_slot = HiddenFolders | VisibleFolders | HiddenFiles | VisibleFiles

definition select_slot :: "AppState \<Rightarrow> string \<Rightarrow> list_slot option" where
  "select_slot s viewName =
     (if viewName = viewFolders
      then (if showHidden s then Some HiddenFolders else Some VisibleFolders)
      else if viewName = viewFiles
      then (if showHidden s then Some HiddenFiles else Some VisibleFiles)
      else None)"

fun slot_list :: "AppState \<Rightarrow> list_slot \<Rightarrow> FileInfo list" where
  "slot_list s HiddenFolders = hiddenDirs s"
| "slot_list s VisibleFolders = visibleDirs s"
| "slot_list s HiddenFiles = hiddenFiles s"
| "slot_list s VisibleFiles = visibleFiles s"

fun slot_origin :: "AppState \<Rightarrow> list_slot \<Rightarrow> int" where
  "slot_origin s HiddenFolders = hiddenFoldersOriginY s"
| "slot_origin s VisibleFolders = visibleFoldersOriginY s"
| "slot_origin s HiddenFiles = hiddenFilesOriginY s"
| "slot_origin s VisibleFiles = visibleFilesOriginY s"

fun slot_cursor :: "AppState \<Rightarrow> list_slot \<Rightarrow> int" where
  "slot_cursor s HiddenFolders = hiddenFoldersCursorY s"
| "slot_cursor s VisibleFolders = visibleFoldersCursorY s"
| "slot_cursor s HiddenFiles = hiddenFilesCursorY s"
| "slot_cursor s VisibleFiles = visibleFilesCursorY s"

fun set_slot_origin :: "list_slot \<Rightarrow> int \<Rightarrow> AppState \<Rightarrow> AppState" where
  "set_slot_origin HiddenFolders v s = s\<lparr>hiddenFoldersOriginY := v\<rparr>"
| "set_slot_origin VisibleFolders v s = s\<lparr>visibleFoldersOriginY := v\<rparr>"
| "set_slot_origin HiddenFiles v s = s\<lparr>hiddenFilesOriginY := v\<rparr>"
| "set_slot_origin VisibleFiles v s = s\<lparr>visibleFilesOriginY := v\<rparr>"

fun set_slot_cursor :: "list_slot \<Rightarrow> int \<Rightarrow> AppState \<Rightarrow> AppState" where
  "set_slot_cursor HiddenFolders v s = s\<lparr>hiddenFoldersCursorY := v\<rparr>"
| "set_slot_cursor VisibleFolders v s = s\<lparr>visibleFoldersCursorY := v\<rparr>"
| "set_slot_cursor HiddenFiles v s = s\<lparr>hiddenFilesCursorY := v\<rparr>"
| "set_slot_cursor VisibleFiles v s = s\<lparr>visibleFilesCursorY := v\<rparr>"

text \<open>
  The two functions share their clamping code word for word.  Step 1 clamps a cursor into
  \<open>[0, listLen - 1]\<close>:
  \<^verbatim>\<open>if newCursorY < 0 { newCursorY = 0 }; if newCursorY >= listLen { newCursorY = listLen - 1 }\<close>
\<close>

definition clamp_cursor :: "int \<Rightarrow> int \<Rightarrow> int" where
  "clamp_cursor listLen newCursorY =
     (let c1 = (if newCursorY < 0 then 0 else newCursorY)
      in if c1 \<ge> listLen then wrap64 (listLen - 1) else c1)"

text \<open>
  Step 3 clamps an origin:
  \<^verbatim>\<open>maxOriginY := listLen - viewHeight; if maxOriginY < 0 { maxOriginY = 0 }\<close>
  \<^verbatim>\<open>if newOriginY > maxOriginY { newOriginY = maxOriginY }; if newOriginY < 0 { newOriginY = 0 }\<close>
\<close>

definition clamp_origin :: "int \<Rightarrow> int \<Rightarrow> int \<Rightarrow> int" where
  "clamp_origin listLen viewHeight newOriginY =
     (let m0 = wrap64 (listLen - viewHeight);
          maxOriginY = (if m0 < 0 then 0 else m0);
          o2 = (if newOriginY > maxOriginY then maxOriginY else newOriginY)
      in if o2 < 0 then 0 else o2)"

text \<open>
  Steps 1 to 3 of \<open>moveCursorAndOrigin\<close>: the new cursor and origin, computed from the
  list length and the old pair.
\<close>

definition move_target :: "int \<Rightarrow> int \<Rightarrow> int \<Rightarrow> int \<Rightarrow> int \<Rightarrow> int \<times> int" where
  "move_target listLen oldOriginY oldCursorY delta viewHeight =
     (let \<comment> \<open>1. new cursor position\<close>
          newCursorY = clamp_cursor listLen (wrap64 (oldCursorY + delta));
          \<comment> \<open>2. new origin from the cursor position\<close>
          newOriginY =
            (if newCursorY < oldOriginY then newCursorY
             else if newCursorY \<ge> wrap64 (oldOriginY + viewHeight)
             then wrap64 (wrap64 (newCursorY - viewHeight) + 1)
             else oldOriginY)
          \<comment> \<open>3. clamp the origin\<close>
      in (newCursorY, clamp_origin listLen viewHeight newOriginY))"

text \<open>Steps 1 to 3 of \<open>setCursorAndOrigin\<close>.\<close>

definition jump_target :: "int \<Rightarrow> int \<Rightarrow> int \<Rightarrow> int \<Rightarrow> int \<times> int" where
  "jump_target listLen oldOriginY target viewHeight =
     (let \<comment> \<open>1. clamp the new cursor position\<close>
          newCursorY = clamp_cursor listLen target;
          \<comment> \<open>2. new origin: centre the cursor when it is outside the window\<close>
          newOriginY =
            (if newCursorY < oldOriginY \<or> newCursorY \<ge> wrap64 (oldOriginY + viewHeight)
             then wrap64 (newCursorY - go_quo viewHeight 2)
             else oldOriginY)
          \<comment> \<open>3. clamp the origin\<close>
      in (newCursorY, clamp_origin listLen viewHeight newOriginY))"

text \<open>
  The tail shared by both functions: the empty-list reset, and step 4, which stores the
  new pair only if it differs from the old one.  The result is the \<open>changed\<close> flag and the
  state after the call.
\<close>

definition store_if_changed :: "AppState \<Rightarrow> list_slot \<Rightarrow> int \<times> int \<Rightarrow> bool \<times> AppState" where
  "store_if_changed s sl new =
     (let newCursorY = fst new; newOriginY = snd new;
          changed = (slot_cursor s sl \<noteq> newCursorY \<or> slot_origin s sl \<noteq> newOriginY)
      in (changed,
          if changed then set_slot_origin sl newOriginY (set_slot_cursor sl newCursorY s)
          else s))"

definition reset_empty :: "AppState \<Rightarrow> list_slot \<Rightarrow> bool \<times> AppState" where
  "reset_empty s sl =
     (slot_origin s sl \<noteq> 0 \<or> slot_cursor s sl \<noteq> 0,
      set_slot_cursor sl 0 (set_slot_origin sl 0 s))"

definition moveCursorAndOrigin :: "AppState \<Rightarrow> string \<Rightarrow> int \<Rightarrow> int \<Rightarrow> bool \<times> AppState" where
  "moveCursorAndOrigin s viewName delta viewHeight =
     (case select_slot s viewName of
        None \<Rightarrow> (False, s)
      | Some sl \<Rightarrow>
          let listLen = go_len (slot_list s sl) in
          if listLen \<le> 0 then reset_empty s sl
          else store_if_changed s sl
                 (move_target listLen (slot_origin s sl) (slot_cursor s sl) delta viewHeight))"

definition setCursorAndOrigin :: "AppState \<Rightarrow> string \<Rightarrow> int \<Rightarrow> int \<Rightarrow> bool \<times> AppState" where
  "setCursorAndOrigin s viewName target viewHeight =
     (case select_slot s viewName of
        None \<Rightarrow> (False, s)
      | Some sl \<Rightarrow>
          let listLen = go_len (slot_list s sl) in
          if listLen \<le> 0 then reset_empty s sl
          else store_if_changed s sl
                 (jump_target listLen (slot_origin s sl) target viewHeight))"

subsection \<open>File content view\<close>

text \<open>
  Strings are byte lists, as in Go.  \<open>strings.Count(s, sep)\<close> for a one-byte \<open>sep\<close>,
  \<open>strings.HasSuffix\<close>, \<open>strings.HasPrefix\<close>, \<open>strings.LastIndex\<close> for a non-empty
  separator, and \<open>strings.ReplaceAll\<close> of one byte.
\<close>

definition newline :: char where
  "newline = CHR 0x0A"

definition strings_Count :: "string \<Rightarrow> char \<Rightarrow> int" where
  "strings_Count s sep = int (length (filter (\<lambda>c. c = sep) s))"

definition strings_HasSuffix :: "string \<Rightarrow> string \<Rightarrow> bool" where
  "strings_HasSuffix s suffix \<longleftrightarrow>
     length suffix \<le> length s \<and> drop (length s - length suffix) s = suffix"

definition strings_HasPrefix :: "string \<Rightarrow> string \<Rightarrow> bool" where
  "strings_HasPrefix s pre \<longleftrightarrow> length pre \<le> length s \<and> take (length pre) s = pre"

definition strings_LastIndex :: "string \<Rightarrow> string \<Rightarrow> int" where
  "strings_LastIndex s sep =
     (case filter (\<lambda>i. take (length sep) (drop i s) = sep) (rev [0..<Suc (length s)]) of
        [] \<Rightarrow> - 1
      | i # _ \<Rightarrow> int i)"

definition strings_ReplaceAll :: "string \<Rightarrow> char \<Rightarrow> string \<Rightarrow> string" where
  "strings_ReplaceAll s old new = concat (map (\<lambda>c. if c = old then new else [c]) s)"

definition SetFileContentView :: "AppState \<Rightarrow> string \<Rightarrow> string \<Rightarrow> string \<Rightarrow> AppState" where
  "SetFileContentView s filename content prevFocus =
     (let s1 = s\<lparr>isFileContentViewVisible := True, fileContentViewFileName := filename,
                  fileContentViewContent := content,
                  fileContentViewTotalLines := strings_Count content newline\<rparr>;
          s2 = (if \<not> strings_HasSuffix content [newline] \<and> go_len content > 0
                then s1\<lparr>fileContentViewTotalLines := wrap64 (fileContentViewTotalLines s1 + 1)\<rparr>
                else if go_len content = 0
                then s1\<lparr>fileContentViewTotalLines := 1\<rparr>
                else s1)
      in s2\<lparr>fileContentViewOriginY := 0, fileContentViewPrevFocus := prevFocus\<rparr>)"

definition CloseFileContentView :: "AppState \<Rightarrow> AppState" where
  "CloseFileContentView s =
     s\<lparr>isFileContentViewVisible := False, fileContentViewFileName := [],
       fileContentViewContent := [], fileContentViewTotalLines := 0,
       fileContentViewOriginY := 0\<rparr>"

section \<open>Read operations used by the handlers (state.go)\<close>

definition GetCurrentList :: "AppState \<Rightarrow> string \<Rightarrow> FileInfo list" where
  "GetCurrentList s viewName =
     (if viewName = viewFolders
      then (if showHidden s then hiddenDirs s else visibleDirs s)
      else if viewName = viewFiles
      then (if showHidden s then hiddenFiles s else visibleFiles s)
      else [])"

definition GetCurrentCursorY :: "AppState \<Rightarrow> string \<Rightarrow> int" where
  "GetCurrentCursorY s viewName =
     (if viewName = viewFolders
      then (if showHidden s then hiddenFoldersCursorY s else visibleFoldersCursorY s)
      else if viewName = viewFiles
      then (if showHidden s then hiddenFilesCursorY s else visibleFilesCursorY s)
      else 0)"

section \<open>Handlers (handlers.go, utils.go)\<close>

text \<open>
  The handlers reach the operating system through four calls, whose outcomes are taken
  from an environment:
  \<^item> \<open>ReadFileWithLimit(path, limit)\<close>: an error message, or \<open>None\<close> for the \<open>nil\<close> slice
    of an empty file, or the bytes read;
  \<^item> \<open>clipboard.WriteAll(text)\<close>: whether it fails;
  \<^item> \<open>filepath.Rel(base, target)\<close>: an error or the relative path;
  \<^item> \<open>fmt.Errorf(msg).Error()\<close>, which reads \<open>msg\<close> as a format string without
    arguments.
  Redraw requests (\<open>g.Update\<close>), the log and gocui's own focus are not part of
  \<open>AppState\<close> and are left out.
\<close>

record env =
  ReadFileWithLimit :: "string \<Rightarrow> int \<Rightarrow> string + string option"
  clipboard_WriteAll_fails :: "string \<Rightarrow> bool"
  filepath_Rel :: "string \<Rightarrow> string \<Rightarrow> string + string"
  fmt_Errorf :: "string \<Rightarrow> string"

definition maxCopySize :: int where
  "maxCopySize = 5 * 1024 * 1024"

definition maxViewSize :: int where
  "maxViewSize = 20 * 1024 * 1024"

definition trimError :: "string \<Rightarrow> string" where
  "trimError errMsg =
     (let lastColon = strings_LastIndex errMsg '': '';
          m1 = (if lastColon \<noteq> - 1 \<and> lastColon < go_len errMsg - 2
                then drop (nat (lastColon + 2)) errMsg else errMsg);
          maxLen = 60
      in if go_len m1 > maxLen then take (nat (maxLen - 3)) m1 @ ''...'' else m1)"

definition copyToClipboard :: "env \<Rightarrow> string \<Rightarrow> go_error" where
  "copyToClipboard e text =
     (if clipboard_WriteAll_fails e text then Some ''clipboard unavailable'' else None)"

definition copyFullPath :: "env \<Rightarrow> FileInfo \<Rightarrow> AppState \<Rightarrow> go_error" where
  "copyFullPath e item s = copyToClipboard e (Path item)"

definition copyRelativePath :: "env \<Rightarrow> FileInfo \<Rightarrow> AppState \<Rightarrow> go_error" where
  "copyRelativePath e item s =
     (case filepath_Rel e (cwd s) (Path item) of
        Inl err \<Rightarrow> Some ''could not determine relative path''
      | Inr relPath \<Rightarrow> copyToClipboard e relPath)"

definition copyContent :: "env \<Rightarrow> FileInfo \<Rightarrow> AppState \<Rightarrow> go_error" where
  "copyContent e item s =
     (if IsDir item then Some ''cannot copy content of a directory''
      else case ReadFileWithLimit e (Path item) maxCopySize of
             Inl err \<Rightarrow> Some err
           | Inr None \<Rightarrow> copyToClipboard e []
           | Inr (Some content) \<Rightarrow> copyToClipboard e content)"

text \<open>\<open>viewFileContentAction\<close> returns its error and the state it leaves.\<close>

definition viewFileContentAction :: "env \<Rightarrow> FileInfo \<Rightarrow> AppState \<Rightarrow> go_error \<times> AppState" where
  "viewFileContentAction e item s =
     (if IsDir item then (Some ''cannot view content of a directory'', s)
      else case ReadFileWithLimit e (Path item) maxViewSize of
             Inl err \<Rightarrow> (Some err, s)
           | Inr contentBytes \<Rightarrow>
               (case (case contentBytes of
                        Some bytes \<Rightarrow>
                          if CHR 0x00 \<in> set bytes
                          then Inl ''cannot display binary file content''
                          else Inr (strings_ReplaceAll bytes (CHR 0x09) ''    '')
                      | None \<Rightarrow> Inr ''[Empty File]'') of
                  Inl err \<Rightarrow> (Some err, s)
                | Inr content \<Rightarrow>
                    let f0 = previousFocusView s;
                        currentFocus = (if f0 = [] then viewFolders else f0)
                    in (None, SetFileContentView s (Name item) content currentFocus)))"

text \<open>Calling the \<open>ActionFn\<close> of a menu entry.\<close>

fun call_ActionFn :: "action_fn \<Rightarrow> env \<Rightarrow> FileInfo \<Rightarrow> AppState \<Rightarrow> go_error \<times> AppState" where
  "call_ActionFn Fn_copyFullPath e item s = (copyFullPath e item s, s)"
| "call_ActionFn Fn_copyRelativePath e item s = (copyRelativePath e item s, s)"
| "call_ActionFn Fn_viewFileContentAction e item s = viewFileContentAction e item s"
| "call_ActionFn Fn_copyContent e item s = (copyContent e item s, s)"
| "call_ActionFn Fn_cancel e item s = (None, s)"

text \<open>
  \<open>handleEnter\<close>: the view is \<open>None\<close> for a \<open>nil\<close> view, else its name.
\<close>

definition handleEnter :: "AppState \<Rightarrow> string option \<Rightarrow> AppState" where
  "handleEnter s v =
     (case v of
        None \<Rightarrow> s
      | Some viewName \<Rightarrow>
          let currentList = GetCurrentList s viewName;
              cursorY = GetCurrentCursorY s viewName
          in if go_len currentList = 0 then s
             else if cursorY < 0 \<or> cursorY \<ge> go_len currentList then s
             else
               let selectedItem = currentList ! nat cursorY;
                   options = [] @ [\<lparr>Label = ''Copy Full Path'', ActionFn = Fn_copyFullPath\<rparr>];
                   options = options @
                     [\<lparr>Label = ''Copy Relative Path'', ActionFn = Fn_copyRelativePath\<rparr>];
                   options = (if \<not> IsDir selectedItem
                      then (options @
                        [\<lparr>Label = ''View Content'', ActionFn = Fn_viewFileContentAction\<rparr>]) @
                        [\<lparr>Label = ''Copy Content (UTF-8)'', ActionFn = Fn_copyContent\<rparr>]
                      else options);
                   options = options @ [\<lparr>Label = ''Cancel'', ActionFn = Fn_cancel\<rparr>]
               in if go_len options > 0 then OpenActionMenu s selectedItem options viewName
                  else s)"

text \<open>
  \<open>handleMenuClose\<close> closes the menu and clears the message; the focus it restores is
  gocui's.
\<close>

definition handleMenuClose :: "AppState \<Rightarrow> AppState" where
  "handleMenuClose s = ClearMessage (CloseActionMenu s)"

definition handleMenuSelect :: "env \<Rightarrow> AppState \<Rightarrow> AppState" where
  "handleMenuSelect e s =
     (let options = actionMenuOptions s;
          selectedIdx = actionMenuSelectedIdx s;
          targetItem = actionMenuItemTarget s
      in if selectedIdx < 0 \<or> selectedIdx \<ge> go_len options then handleMenuClose s
         else
           let selectedOption = options ! nat selectedIdx;
               actionLabel = Label selectedOption;
               closeMenuFirst = (actionLabel \<noteq> ''View Content'');
               s1 = (if closeMenuFirst then CloseActionMenu s else s);
               (actionErr, s2) = call_ActionFn (ActionFn selectedOption) e targetItem s1
           in case actionErr of
                Some err \<Rightarrow>
                  let errMsg = ''Error: '' @ actionLabel @ '' - '' @ err;
                      s3 = SetMessage s2 (trimError (fmt_Errorf e errMsg))
                  in if actionLabel = ''View Content'' \<and> isActionMenuVisible s3
                     then CloseActionMenu s3 else s3
              | None \<Rightarrow>
                  if actionLabel = ''View Content'' then ClearMessage (CloseActionMenu s2)
                  else if actionLabel \<noteq> ''Cancel'' then
                    let successMsg = [CHR 0x27] @ actionLabel @ [CHR 0x27] @ '' copied to clipboard'';
                        successMsg =
                          (if strings_HasPrefix actionLabel ''Copy Content''
                           then ''Content of '' @ [CHR 0x27] @ Name targetItem @ [CHR 0x27] @ '' copied''
                           else successMsg)
                    in SetMessage s2 successMsg
                  else if \<not> closeMenuFirst \<and> isActionMenuVisible s2 then CloseActionMenu s2
                  else s2)"

section \<open>Scanner (core.go)\<close>

text \<open>
  What \<open>filepath.WalkDir\<close> finds below the working directory is a tree of entries: a
  file whose \<open>Info()\<close> gives its size, a file whose \<open>Info()\<close> fails, a directory with
  the entries \<open>ReadDir\<close> returns (sorted by name), and a directory whose \<open>ReadDir\<close> fails,
  with the error and the entries read before the failure.
\<close>

datatype dir_entry =
    File string int
  | FileNoInfo string string
  | Dir string "dir_entry list"
  | DirUnreadable string string "dir_entry list"

fun entry_Name :: "dir_entry \<Rightarrow> string" where
  "entry_Name (File name sz) = name"
| "entry_Name (FileNoInfo name err) = name"
| "entry_Name (Dir name es) = name"
| "entry_Name (DirUnreadable name err es) = name"

fun entry_IsDir :: "dir_entry \<Rightarrow> bool" where
  "entry_IsDir (File name sz) = False"
| "entry_IsDir (FileNoInfo name err) = False"
| "entry_IsDir (Dir name es) = True"
| "entry_IsDir (DirUnreadable name err es) = True"

text \<open>\<open>d.Info()\<close> followed by \<open>info.Size()\<close>: an error or the size.\<close>

fun entry_Info_Size :: "dir_entry \<Rightarrow> string + int" where
  "entry_Info_Size (File name sz) = Inr sz"
| "entry_Info_Size (FileNoInfo name err) = Inl err"
| "entry_Info_Size (Dir name es) = Inr 0"
| "entry_Info_Size (DirUnreadable name err es) = Inr 0"

text \<open>
  \<open>filepath.Base\<close>: \<open>.\<close> for the empty path; otherwise the trailing separators are
  stripped and what follows the last separator is returned, or \<open>/\<close> if nothing is left.
\<close>

definition filepath_Base :: "string \<Rightarrow> string" where
  "filepath_Base path =
     (if path = [] then ''.''
      else
        let stripped = rev (dropWhile (\<lambda>c. c = CHR ''/'') (rev path));
            lastElem = rev (takeWhile (\<lambda>c. c \<noteq> CHR ''/'') (rev stripped))
        in if lastElem = [] then ''/'' else lastElem)"

text \<open>
  The variables \<open>calculateStats\<close> declares before the walk and the callback updates.
\<close>

record walk_vars =
  w_totalSize :: int
  w_largestFile :: FileInfo
  w_firstWalkErr :: go_error

text \<open>The callback returns \<open>nil\<close> or \<open>filepath.SkipDir\<close>, never another error.\<close>

datatype walk_ret = RetNil | RetSkipDir

text \<open>
  The function literal passed to \<open>filepath.WalkDir\<close>.  \<open>getIcon\<close> is a parameter: the
  icon table plays no part in the statistics.  The entry \<open>d\<close> is \<open>None\<close> for \<open>nil\<close>, which
  \<open>WalkDir\<close> passes only together with an error.
\<close>

definition walk_callback ::
  "string \<Rightarrow> (string \<Rightarrow> bool \<Rightarrow> string) \<Rightarrow> string \<Rightarrow> dir_entry option \<Rightarrow> go_error \<Rightarrow>
     walk_vars \<Rightarrow> walk_ret \<times> walk_vars" where
  "walk_callback cwd0 getIcon path d walkError w =
     (case walkError of
        Some werr \<Rightarrow>
          let w1 = (if w_firstWalkErr w = None
                    then let entryName = (case d of None \<Rightarrow> ''entry'' | Some e \<Rightarrow> entry_Name e)
                         in w\<lparr>w_firstWalkErr := Some (''accessing '' @ entryName @ '': '' @ werr)\<rparr>
                    else w)
          in if (case d of None \<Rightarrow> False | Some e \<Rightarrow> entry_IsDir e) then (RetSkipDir, w1)
             else (RetNil, w1)
      | None \<Rightarrow>
          if path = cwd0 then (RetNil, w)
          else (case d of
                  None \<Rightarrow> (RetNil, w)
                | Some e \<Rightarrow>
                    if \<not> entry_IsDir e then
                      (case entry_Info_Size e of
                         Inl infoErr \<Rightarrow>
                           (RetNil,
                            if w_firstWalkErr w = None
                            then w\<lparr>w_firstWalkErr :=
                                     Some (''info for '' @ entry_Name e @ '': '' @ infoErr)\<rparr>
                            else w)
                       | Inr fileSize \<Rightarrow>
                           let w1 = w\<lparr>w_totalSize := wrap64 (w_totalSize w + fileSize)\<rparr>
                           in (RetNil,
                               if fileSize > Size (w_largestFile w1)
                               then w1\<lparr>w_largestFile :=
                                        \<lparr>Name = entry_Name e, Path = path, IsDir = False,
                                         Size = fileSize, Icon = getIcon (entry_Name e) False\<rparr>\<rparr>
                               else w1))
                    else (RetNil, w)))"

text \<open>
  \<open>filepath.WalkDir\<close> of the Go library, for this callback.  \<open>walkDir\<close> calls the
  callback on the entry; for a directory it then reads the entries, calls the callback a
  second time with the error if the read failed, and walks the entries it got in order.
  \<open>SkipDir\<close> from a directory skips that directory; from a file it skips the rest of the
  file's directory.  The path of an entry is \<open>filepath.Join\<close> of its directory's path and
  its name.  \<open>filepath.Join\<close> is the library's, with its path cleaning; it is the parameter
  \<open>join\<close> here, and the facts below hold for every such function.
\<close>

fun walkDir ::
    "string \<Rightarrow> (string \<Rightarrow> bool \<Rightarrow> string) \<Rightarrow> (string \<Rightarrow> string \<Rightarrow> string) \<Rightarrow> string \<Rightarrow>
       dir_entry \<Rightarrow> walk_vars \<Rightarrow> walk_ret \<times> walk_vars"
  and walkDirs ::
    "string \<Rightarrow> (string \<Rightarrow> bool \<Rightarrow> string) \<Rightarrow> (string \<Rightarrow> string \<Rightarrow> string) \<Rightarrow> string \<Rightarrow>
       dir_entry list \<Rightarrow> walk_vars \<Rightarrow> walk_ret \<times> walk_vars" where
  "walkDir cwd0 getIcon join path (File name sz) w =
     walk_callback cwd0 getIcon path (Some (File name sz)) None w"
| "walkDir cwd0 getIcon join path (FileNoInfo name err) w =
     walk_callback cwd0 getIcon path (Some (FileNoInfo name err)) None w"
| "walkDir cwd0 getIcon join path (Dir name es) w =
     (case walk_callback cwd0 getIcon path (Some (Dir name es)) None w of
        (RetSkipDir, w1) \<Rightarrow> (RetNil, w1)
      | (RetNil, w1) \<Rightarrow> walkDirs cwd0 getIcon join path es w1)"
| "walkDir cwd0 getIcon join path (DirUnreadable name err es) w =
     (case walk_callback cwd0 getIcon path (Some (DirUnreadable name err es)) None w of
        (RetSkipDir, w1) \<Rightarrow> (RetNil, w1)
      | (RetNil, w1) \<Rightarrow>
          (case walk_callback cwd0 getIcon path (Some (DirUnreadable name err es)) (Some err) w1 of
             (RetSkipDir, w2) \<Rightarrow> (RetNil, w2)
           | (RetNil, w2) \<Rightarrow> walkDirs cwd0 getIcon join path es w2))"
| "walkDirs cwd0 getIcon join path [] w = (RetNil, w)"
| "walkDirs cwd0 getIcon join path (d1 # ds) w =
     (case walkDir cwd0 getIcon join (join path (entry_Name d1)) d1 w of
        (RetSkipDir, w1) \<Rightarrow> (RetNil, w1)
      | (RetNil, w1) \<Rightarrow> walkDirs cwd0 getIcon join path ds w1)"

text \<open>
  \<open>WalkDir(root, fn)\<close>: the root is an \<open>Lstat\<close> error or its entry.  The error it returns
  is \<open>nil\<close>, since the callback returns no error but \<open>SkipDir\<close>.
\<close>

definition WalkDir ::
  "string \<Rightarrow> (string \<Rightarrow> bool \<Rightarrow> string) \<Rightarrow> (string \<Rightarrow> string \<Rightarrow> string) \<Rightarrow> string + dir_entry \<Rightarrow>
     walk_vars \<Rightarrow> go_error \<times> walk_vars" where
  "WalkDir cwd0 getIcon join root w =
     (case root of
        Inl lstatErr \<Rightarrow> (None, snd (walk_callback cwd0 getIcon cwd0 None (Some lstatErr) w))
      | Inr d \<Rightarrow> (None, snd (walkDir cwd0 getIcon join cwd0 d w)))"

text \<open>
  \<open>calculateStats\<close>.  Its inputs besides the state are the tree at the working directory
  and the outcomes of \<open>IsGitRepo\<close> and \<open>GetGitBranch\<close> (an error or a value each);
  \<open>getIcon\<close> and \<open>join\<close> are passed on to the walk.
\<close>

definition calculateStats ::
  "(string \<Rightarrow> bool \<Rightarrow> string) \<Rightarrow> (string \<Rightarrow> string \<Rightarrow> string) \<Rightarrow> string + dir_entry \<Rightarrow>
     string + bool \<Rightarrow> string + string \<Rightarrow> AppState \<Rightarrow> AppState" where
  "calculateStats getIcon join root isGitRepo getGitBranch s0 =
     (let s = SetStatsLoading s0;
          cwd0 = cwd s;
          w0 = \<lparr>w_totalSize = 0,
                w_largestFile = \<lparr>Name = [], Path = [], IsDir = False, Size = - 1, Icon = []\<rparr>,
                w_firstWalkErr = None\<rparr>;
          (err, w) = WalkDir cwd0 getIcon join root w0;
          firstWalkErr =
            (case err of
               Some e \<Rightarrow>
                 if w_firstWalkErr w = None
                 then Some (''walking '' @ filepath_Base cwd0 @ '': '' @ e)
                 else w_firstWalkErr w
             | None \<Rightarrow> w_firstWalkErr w);
          largest = w_largestFile w;
          (finalTotalSize, finalLargestFile) =
            (if firstWalkErr \<noteq> None
             then (- 2,
                   if Size largest = - 1
                   then \<lparr>Name = ''Error during scan'', Path = [], IsDir = False, Size = - 2,
                         Icon = []\<rparr>
                   else largest)
             else if Size largest = - 1 then (w_totalSize w, FileInfo_zero)
             else (w_totalSize w, largest));
          gitStatus =
            (case isGitRepo of
               Inl repoCheckErr \<Rightarrow> ''Status Unknown (Error)''
             | Inr isRepo \<Rightarrow>
                 if \<not> isRepo then ''Inactive''
                 else (case getGitBranch of
                         Inl branchErr \<Rightarrow> ''Active: (Branch Error)''
                       | Inr branchName \<Rightarrow>
                           if branchName = [] then ''Active: (Detached HEAD?)''
                           else ''Active: ('' @ branchName @ '')''))
      in SetStatsResults s finalTotalSize finalLargestFile gitStatus firstWalkErr)"

section \<open>Notions used in the statements\<close>

subsection \<open>Flat listings\<close>

text \<open>
  Two notions for stating facts about the walk: an entry of a flat listing (a file with a
  size, or an unreadable directory), and the \<open>FileInfo\<close> the callback records for a file
  \<open>name\<close> of size \<open>sz\<close> visited at \<open>path\<close>.
\<close>

fun flat_entry :: "dir_entry \<Rightarrow> bool" where
  "flat_entry (File name sz) = True"
| "flat_entry (DirUnreadable name err es) = True"
| "flat_entry (FileNoInfo name err) = False"
| "flat_entry (Dir name es) = False"

definition found_file :: "(string \<Rightarrow> bool \<Rightarrow> string) \<Rightarrow> string \<Rightarrow> string \<Rightarrow> int \<Rightarrow> FileInfo" where
  "found_file getIcon path name sz =
     \<lparr>Name = name, Path = path, IsDir = False, Size = sz, Icon = getIcon name False\<rparr>"

subsection \<open>Example values\<close>

text \<open>
  A directory \<open>/tmp\<close> holding one text file, the menu \<open>handleEnter\<close> offers for a file,
  and an environment in which every read returns the two bytes \<open>hi\<close> and nothing fails.
\<close>

definition example_file :: FileInfo where
  "example_file = \<lparr>Name = ''a.txt'', Path = ''/tmp/a.txt'', IsDir = False, Size = 0, Icon = []\<rparr>"

definition example_state :: AppState where
  "example_state = SetDirectoryContents (NewAppState ''/tmp'') [] [example_file] [] []"

text \<open>The same directory holding \<open>n\<close> folders and nothing else, freshly loaded.\<close>

definition example_folders :: "nat \<Rightarrow> AppState" where
  "example_folders n =
     SetDirectoryContents (NewAppState ''/tmp'')
       (replicate n \<lparr>Name = ''d'', Path = ''/tmp/d'', IsDir = True, Size = 0, Icon = []\<rparr>)
       [] [] []"

definition example_menu :: "ActionMenuItem list" where
  "example_menu =
     [\<lparr>Label = ''Copy Full Path'', ActionFn = Fn_copyFullPath\<rparr>,
      \<lparr>Label = ''Copy Relative Path'', ActionFn = Fn_copyRelativePath\<rparr>,
      \<lparr>Label = ''View Content'', ActionFn = Fn_viewFileContentAction\<rparr>,
      \<lparr>Label = ''Copy Content (UTF-8)'', ActionFn = Fn_copyContent\<rparr>,
      \<lparr>Label = ''Cancel'', ActionFn = Fn_cancel\<rparr>]"

definition example_env :: env where
  "example_env =
     \<lparr>ReadFileWithLimit = (\<lambda>path limit. Inr (Some ''hi'')),
      clipboard_WriteAll_fails = (\<lambda>text. False),
      filepath_Rel = (\<lambda>base target. Inr target),
      fmt_Errorf = (\<lambda>msg. msg)\<rparr>"

subsection \<open>The viewport invariant and sequences of navigation calls\<close>

text \<open>
  The invariant of a (cursor, origin) pair for a list of length \<open>len\<close> shown in a window
  of \<open>h\<close> lines.
\<close>

definition viewport_ok :: "int \<Rightarrow> int \<Rightarrow> int \<Rightarrow> int \<Rightarrow> bool" where
  "viewport_ok len h cursor origin \<longleftrightarrow>
     (if len = 0 then cursor = 0 \<and> origin = 0 else 0 \<le> cursor \<and> cursor < len) \<and>
     origin \<le> cursor \<and> cursor \<le> origin + h - 1 \<and>
     0 \<le> origin \<and> origin \<le> max 0 (len - h)"

definition slot_ok :: "AppState \<Rightarrow> int \<Rightarrow> list_slot \<Rightarrow> bool" where
  "slot_ok s h sl =
     viewport_ok (go_len (slot_list s sl)) h (slot_cursor s sl) (slot_origin s sl)"

text \<open>
  A navigation call names its view and carries its delta or its target; a run applies a
  list of calls in order, all with the same window height.
\<close>

datatype nav_call = MoveBy string int | JumpTo string int

fun nav_step :: "int \<Rightarrow> AppState \<Rightarrow> nav_call \<Rightarrow> AppState" where
  "nav_step h s (MoveBy viewName delta) = snd (moveCursorAndOrigin s viewName delta h)"
| "nav_step h s (JumpTo viewName target) = snd (setCursorAndOrigin s viewName target h)"

definition nav_run :: "int \<Rightarrow> AppState \<Rightarrow> nav_call list \<Rightarrow> AppState" where
  "nav_run h s calls = foldl (nav_step h) s calls"

section \<open>Basic facts about the integers\<close>

lemma wrap64_eq:
  "- 9223372036854775808 \<le> x \<Longrightarrow> x \<le> 9223372036854775807 \<Longrightarrow> wrap64 x = x"
  by (simp add: wrap64_def)

lemma go_len_nonneg: "0 \<le> go_len xs"
  by (simp add: go_len_def)

section \<open>Scan results\<close>

text \<open>
  C2. Whenever \<open>SetStatsResults\<close> is called with a non-nil error, the stored total size
  afterwards is the error sentinel \<open>-2\<close>, whatever total the caller passes.
\<close>

theorem SetStatsResults_error_forces_sentinel:
  "err \<noteq> None \<Longrightarrow> totalSize (SetStatsResults s tSize lFile gStatus err) = - 2"
  by (simp add: SetStatsResults_def Let_def)

theorem SetStatsResults_error_forces_sentinel_witness:
  "Some ''accessing sub: permission denied'' \<noteq> (None :: go_error) \<and>
   totalSize (SetStatsResults (NewAppState ''/tmp'') 2510 FileInfo_zero ''Inactive''
                (Some ''accessing sub: permission denied'')) = - 2"
  using SetStatsResults_error_forces_sentinel
          [of "Some ''accessing sub: permission denied''" "NewAppState ''/tmp''" 2510
              FileInfo_zero "''Inactive''"]
  by simp

section \<open>Opening the menu\<close>

text \<open>
  C10. Every call to \<open>OpenActionMenu\<close> clears the transient message (\<open>lastMessage\<close> becomes
  the empty string) and resets the menu's selected index to 0.
\<close>

theorem OpenActionMenu_clears_message:
  "lastMessage (OpenActionMenu s item options focus) = [] \<and>
   actionMenuSelectedIdx (OpenActionMenu s item options focus) = 0"
  by (simp add: OpenActionMenu_def)

section \<open>Cursor and origin of a list\<close>

lemma clamp_cursor_range:
  assumes "0 < n" "n \<le> max_int"
  shows "0 \<le> clamp_cursor n x \<and> clamp_cursor n x < n"
proof -
  have "wrap64 (n - 1) = n - 1" using assms by (intro wrap64_eq) (simp_all add: max_int_def)
  then show ?thesis using assms by (simp add: clamp_cursor_def Let_def)
qed

lemma clamp_origin_eq:
  assumes "0 \<le> n" "n \<le> max_int" "1 \<le> h" "h \<le> max_int"
  shows "clamp_origin n h x = max 0 (min x (max 0 (n - h)))"
proof -
  have "wrap64 (n - h) = n - h" using assms by (intro wrap64_eq) (simp_all add: max_int_def)
  then show ?thesis by (simp add: clamp_origin_def Let_def max_def min_def)
qed

lemma move_target_ok:
  assumes n: "0 < n" "n \<le> max_int"
    and hh: "1 \<le> h" "h \<le> max_int"
    and pre: "viewport_ok n h c0 o0"
  shows "viewport_ok n h (fst (move_target n o0 c0 d h)) (snd (move_target n o0 c0 d h))"
proof -
  define c where "c = clamp_cursor n (wrap64 (c0 + d))"
  have c: "0 \<le> c" "c < n" using clamp_cursor_range[OF n] by (simp_all add: c_def)
  have pre': "0 \<le> o0" "o0 \<le> max 0 (n - h)"
    using pre n by (simp_all add: viewport_ok_def split: if_splits)
  have w2: "wrap64 (o0 + h) = o0 + h" using n hh pre' by (intro wrap64_eq) (simp_all add: max_int_def max_def split: if_splits)
  have w3: "wrap64 (c - h) = c - h" using n hh c by (intro wrap64_eq) (simp_all add: max_int_def)
  have w4: "wrap64 (c - h + 1) = c - h + 1" using n hh c by (intro wrap64_eq) (simp_all add: max_int_def)
  define o1 where "o1 = (if c < o0 then c else if c \<ge> o0 + h then c - h + 1 else o0)"
  have eq: "move_target n o0 c0 d h = (c, max 0 (min o1 (max 0 (n - h))))"
    using n hh by (simp add: move_target_def Let_def c_def[symmetric] w2 w3 w4 clamp_origin_eq o1_def)
  have o1: "o1 \<le> c" "c \<le> o1 + h - 1" using hh by (auto simp: o1_def)
  show ?thesis unfolding eq using n c hh(1) o1
    by (simp add: viewport_ok_def max_def min_def)
qed

lemma go_quo_two: "0 \<le> h \<Longrightarrow> go_quo h 2 = h div 2"
  by (cases "h = 0") (simp_all add: go_quo_def)

lemma jump_target_ok:
  assumes n: "0 < n" "n \<le> max_int"
    and hh: "1 \<le> h" "h \<le> max_int"
    and pre: "viewport_ok n h c0 o0"
  shows "viewport_ok n h (fst (jump_target n o0 t h)) (snd (jump_target n o0 t h))"
proof -
  define c where "c = clamp_cursor n t"
  have c: "0 \<le> c" "c < n" using clamp_cursor_range[OF n] by (simp_all add: c_def)
  have pre': "0 \<le> o0" "o0 \<le> max 0 (n - h)"
    using pre n by (simp_all add: viewport_ok_def split: if_splits)
  have q: "go_quo h 2 = h div 2" using hh by (simp add: go_quo_two)
  have q2: "0 \<le> h div 2" "h div 2 \<le> h - 1" using hh by simp_all
  have w2: "wrap64 (o0 + h) = o0 + h" using n hh pre' by (intro wrap64_eq) (simp_all add: max_int_def max_def split: if_splits)
  have w3: "wrap64 (c - h div 2) = c - h div 2" using n hh c q2 by (intro wrap64_eq) (simp_all add: max_int_def)
  define o1 where "o1 = (if c < o0 \<or> c \<ge> o0 + h then c - h div 2 else o0)"
  have eq: "jump_target n o0 t h = (c, max 0 (min o1 (max 0 (n - h))))"
    using n hh by (simp add: jump_target_def Let_def c_def[symmetric] q w2 w3 clamp_origin_eq o1_def)
  have o1: "o1 \<le> c" "c \<le> o1 + h - 1" using hh q2 by (auto simp: o1_def)
  show ?thesis unfolding eq using n c hh(1) o1
    by (simp add: viewport_ok_def max_def min_def)
qed

lemma slot_cursor_set_cursor:
  "slot_cursor (set_slot_cursor sl v s) sl' = (if sl = sl' then v else slot_cursor s sl')"
  by (cases sl; cases sl'; simp)

lemma slot_origin_set_cursor: "slot_origin (set_slot_cursor sl v s) sl' = slot_origin s sl'"
  by (cases sl; cases sl'; simp)

lemma slot_cursor_set_origin: "slot_cursor (set_slot_origin sl v s) sl' = slot_cursor s sl'"
  by (cases sl; cases sl'; simp)

lemma slot_origin_set_origin:
  "slot_origin (set_slot_origin sl v s) sl' = (if sl = sl' then v else slot_origin s sl')"
  by (cases sl; cases sl'; simp)

lemma slot_list_set_cursor: "slot_list (set_slot_cursor sl v s) sl' = slot_list s sl'"
  by (cases sl; cases sl'; simp)

lemma slot_list_set_origin: "slot_list (set_slot_origin sl v s) sl' = slot_list s sl'"
  by (cases sl; cases sl'; simp)

lemmas slot_simps = slot_cursor_set_cursor slot_origin_set_cursor slot_cursor_set_origin
  slot_origin_set_origin slot_list_set_cursor slot_list_set_origin

lemma store_if_changed_slots:
  "slot_list (snd (store_if_changed s sl new)) sl' = slot_list s sl'"
  "slot_cursor (snd (store_if_changed s sl new)) sl' = (if sl = sl' then fst new else slot_cursor s sl')"
  "slot_origin (snd (store_if_changed s sl new)) sl' = (if sl = sl' then snd new else slot_origin s sl')"
  by (auto simp: store_if_changed_def Let_def slot_simps)

lemma reset_empty_slots:
  "slot_list (snd (reset_empty s sl)) sl' = slot_list s sl'"
  "slot_cursor (snd (reset_empty s sl)) sl' = (if sl = sl' then 0 else slot_cursor s sl')"
  "slot_origin (snd (reset_empty s sl)) sl' = (if sl = sl' then 0 else slot_origin s sl')"
  by (simp_all add: reset_empty_def slot_simps)

lemma viewport_ok_empty: "1 \<le> h \<Longrightarrow> viewport_ok 0 h 0 0"
  by (simp add: viewport_ok_def)

lemma move_slot_list: "slot_list (snd (moveCursorAndOrigin s v d h)) sl = slot_list s sl"
  by (simp add: moveCursorAndOrigin_def Let_def store_if_changed_slots reset_empty_slots
      split: option.split)

lemma jump_slot_list: "slot_list (snd (setCursorAndOrigin s v t h)) sl = slot_list s sl"
  by (simp add: setCursorAndOrigin_def Let_def store_if_changed_slots reset_empty_slots
      split: option.split)

lemma move_keeps_ok:
  assumes hh: "1 \<le> h" "h \<le> max_int"
    and len: "go_len (slot_list s sl) \<le> max_int"
    and ok: "slot_ok s h sl"
  shows "slot_ok (snd (moveCursorAndOrigin s v d h)) h sl"
proof (cases "select_slot s v")
  case None
  then show ?thesis using ok by (simp add: moveCursorAndOrigin_def)
next
  case (Some sl0)
  show ?thesis
  proof (cases "sl0 = sl")
    case False
    then show ?thesis using ok Some
      by (simp add: moveCursorAndOrigin_def Let_def slot_ok_def store_if_changed_slots reset_empty_slots)
  next
    case True
    show ?thesis
    proof (cases "go_len (slot_list s sl) \<le> 0")
      case e: True
      with go_len_nonneg[of "slot_list s sl"] have "go_len (slot_list s sl) = 0" by simp
      then show ?thesis using Some True hh viewport_ok_empty
        by (simp add: moveCursorAndOrigin_def Let_def slot_ok_def reset_empty_slots)
    next
      case ne: False
      then have n: "0 < go_len (slot_list s sl)" by simp
      show ?thesis using Some True ne move_target_ok[OF n len hh ok[unfolded slot_ok_def], of d]
        by (simp add: moveCursorAndOrigin_def Let_def slot_ok_def store_if_changed_slots)
    qed
  qed
qed

lemma jump_keeps_ok:
  assumes hh: "1 \<le> h" "h \<le> max_int"
    and len: "go_len (slot_list s sl) \<le> max_int"
    and ok: "slot_ok s h sl"
  shows "slot_ok (snd (setCursorAndOrigin s v t h)) h sl"
proof (cases "select_slot s v")
  case None
  then show ?thesis using ok by (simp add: setCursorAndOrigin_def)
next
  case (Some sl0)
  show ?thesis
  proof (cases "sl0 = sl")
    case False
    then show ?thesis using ok Some
      by (simp add: setCursorAndOrigin_def Let_def slot_ok_def store_if_changed_slots reset_empty_slots)
  next
    case True
    show ?thesis
    proof (cases "go_len (slot_list s sl) \<le> 0")
      case e: True
      with go_len_nonneg[of "slot_list s sl"] have "go_len (slot_list s sl) = 0" by simp
      then show ?thesis using Some True hh viewport_ok_empty
        by (simp add: setCursorAndOrigin_def Let_def slot_ok_def reset_empty_slots)
    next
      case ne: False
      then have n: "0 < go_len (slot_list s sl)" by simp
      show ?thesis using Some True ne jump_target_ok[OF n len hh ok[unfolded slot_ok_def], of t]
        by (simp add: setCursorAndOrigin_def Let_def slot_ok_def store_if_changed_slots)
    qed
  qed
qed

lemma nav_step_slot_list: "slot_list (nav_step h s c) sl = slot_list s sl"
  by (cases c) (simp_all add: move_slot_list jump_slot_list)

lemma nav_step_keeps_ok:
  "1 \<le> h \<Longrightarrow> h \<le> max_int \<Longrightarrow> go_len (slot_list s sl) \<le> max_int \<Longrightarrow> slot_ok s h sl
   \<Longrightarrow> slot_ok (nav_step h s c) h sl"
  by (cases c) (simp_all add: move_keeps_ok jump_keeps_ok)

lemma nav_run_keeps_ok:
  "1 \<le> h \<Longrightarrow> h \<le> max_int \<Longrightarrow> go_len (slot_list s sl) \<le> max_int \<Longrightarrow> slot_ok s h sl
   \<Longrightarrow> slot_ok (nav_run h s calls) h sl"
  unfolding nav_run_def
proof (induction calls arbitrary: s)
  case Nil
  then show ?case by simp
next
  case (Cons c calls)
  have "slot_ok (nav_step h s c) h sl" using Cons.prems by (rule nav_step_keeps_ok)
  moreover have "go_len (slot_list (nav_step h s c) sl) \<le> max_int"
    using Cons.prems(3) by (simp add: nav_step_slot_list)
  ultimately show ?case using Cons.IH Cons.prems(1,2) by simp
qed

lemma reset_ok:
  assumes "1 \<le> h" "slot_cursor s sl = 0" "slot_origin s sl = 0"
  shows "slot_ok s h sl"
  using assms go_len_nonneg[of "slot_list s sl"] by (simp add: slot_ok_def viewport_ok_def)

text \<open>
  C1. For every list length and every window height of at least 1, starting from a pair
  that is reset (cursor 0, origin 0), after any sequence of \<open>moveCursorAndOrigin\<close> and
  \<open>setCursorAndOrigin\<close> calls the stored pair of each list satisfies
  \<open>0 \<le> cursor < length\<close> (both 0 for an empty list),
  \<open>origin \<le> cursor \<le> origin + height - 1\<close> and \<open>0 \<le> origin \<le> max 0 (length - height)\<close>.
  The height and the length are Go \<open>int\<close>s, so at most \<open>max_int\<close>.
\<close>

theorem viewport_invariant_after_calls:
  assumes "1 \<le> h" and "h \<le> max_int"
    and "go_len (slot_list s sl) \<le> max_int"
    and "slot_cursor s sl = 0" and "slot_origin s sl = 0"
  shows "viewport_ok (go_len (slot_list s sl)) h
           (slot_cursor (nav_run h s calls) sl) (slot_origin (nav_run h s calls) sl)"
proof -
  have "slot_ok s h sl" using assms(1,4,5) by (rule reset_ok)
  then have "slot_ok (nav_run h s calls) h sl" using assms(1-3) by (simp add: nav_run_keeps_ok)
  moreover have "slot_list (nav_run h s calls) sl = slot_list s sl"
    unfolding nav_run_def by (induction calls arbitrary: s) (simp_all add: nav_step_slot_list)
  ultimately show ?thesis by (simp add: slot_ok_def)
qed

theorem viewport_invariant_after_calls_witness:
  "(1::int) \<le> 3 \<and> (3::int) \<le> max_int \<and>
   go_len (slot_list (example_folders 5) VisibleFolders) \<le> max_int \<and>
   slot_cursor (example_folders 5) VisibleFolders = 0 \<and>
   slot_origin (example_folders 5) VisibleFolders = 0 \<and>
   viewport_ok 5 3
     (slot_cursor
        (nav_run 3 (example_folders 5)
           [MoveBy ''folders'' 3, JumpTo ''folders'' 4, MoveBy ''files'' 1,
            MoveBy ''folders'' (- 1)])
        VisibleFolders)
     (slot_origin
        (nav_run 3 (example_folders 5)
           [MoveBy ''folders'' 3, JumpTo ''folders'' 4, MoveBy ''files'' 1,
            MoveBy ''folders'' (- 1)])
        VisibleFolders)"
  using viewport_invariant_after_calls
          [of 3 "example_folders 5" VisibleFolders
              "[MoveBy ''folders'' 3, JumpTo ''folders'' 4, MoveBy ''files'' 1,
                MoveBy ''folders'' (- 1)]"]
  by (simp add: max_int_def example_folders_def SetDirectoryContents_def NewAppState_def
      go_len_def)

lemmas nav_eval = example_folders_def nav_run_def moveCursorAndOrigin_def
  setCursorAndOrigin_def select_slot_def viewFolders_def viewFiles_def NewAppState_def SetDirectoryContents_def go_len_def
  store_if_changed_def reset_empty_def move_target_def jump_target_def clamp_cursor_def
  clamp_origin_def wrap64_def go_quo_def Let_def max_int_def viewport_ok_def

lemma set_slot_same:
  "slot_origin s sl = v \<Longrightarrow> set_slot_origin sl v s = s"
  "slot_cursor s sl = v \<Longrightarrow> set_slot_cursor sl v s = s"
  by (cases sl; auto)+

text \<open>
  C9, as amended. For every state whose selected (cursor, origin) pair satisfies the viewport
  invariant for the height of the call (at least 1), \<open>moveCursorAndOrigin\<close> with delta 0
  leaves cursor and origin unchanged and returns \<open>changed = false\<close>.
\<close>

theorem move_zero_unchanged:
  assumes sel: "select_slot s v = Some sl"
    and hh: "1 \<le> h" "h \<le> max_int"
    and len: "go_len (slot_list s sl) \<le> max_int"
    and ok: "viewport_ok (go_len (slot_list s sl)) h (slot_cursor s sl) (slot_origin s sl)"
  shows "moveCursorAndOrigin s v 0 h = (False, s)"
proof (cases "go_len (slot_list s sl) \<le> 0")
  case True
  with go_len_nonneg[of "slot_list s sl"] have z: "go_len (slot_list s sl) = 0" by simp
  with ok have "slot_cursor s sl = 0" "slot_origin s sl = 0" by (simp_all add: viewport_ok_def)
  then show ?thesis using sel z
    by (simp add: moveCursorAndOrigin_def reset_empty_def set_slot_same)
next
  case False
  define n where "n = go_len (slot_list s sl)"
  define c where "c = slot_cursor s sl"
  define og where "og = slot_origin s sl"
  have n: "0 < n" "n \<le> max_int" using False len by (simp_all add: n_def)
  have pre: "0 \<le> c" "c < n" "og \<le> c" "c \<le> og + h - 1" "0 \<le> og" "og \<le> max 0 (n - h)"
    using ok n by (simp_all add: viewport_ok_def n_def c_def og_def split: if_splits)
  have w1: "wrap64 c = c" using pre n by (intro wrap64_eq) (simp_all add: max_int_def)
  have cc: "clamp_cursor n c = c" using pre by (simp add: clamp_cursor_def)
  have w2: "wrap64 (og + h) = og + h" using n hh pre
    by (intro wrap64_eq) (simp_all add: max_int_def max_def split: if_splits)
  have co: "clamp_origin n h og = og" using n hh pre by (simp add: clamp_origin_eq)
  have "move_target n og c 0 h = (c, og)"
    using pre by (simp add: move_target_def Let_def w1 cc w2 co)
  then show ?thesis using sel False
    by (simp add: moveCursorAndOrigin_def Let_def store_if_changed_def n_def c_def og_def)
qed

theorem move_zero_unchanged_witness:
  "select_slot (example_folders 5) ''folders'' = Some VisibleFolders \<and>
   (1::int) \<le> 3 \<and> (3::int) \<le> max_int \<and>
   moveCursorAndOrigin (example_folders 5) ''folders'' 0 3 = (False, example_folders 5)"
  using move_zero_unchanged [of "example_folders 5" "''folders''" VisibleFolders 3]
  by (simp add: max_int_def example_folders_def SetDirectoryContents_def NewAppState_def
      go_len_def select_slot_def viewFolders_def viewport_ok_def)

text \<open>
  C9 as stated fails for a pair that does not satisfy the invariant for the height of the
  call.  Twenty folders, window of 10 lines: a move by 9 leaves cursor 9, origin 0.  The
  window then shrinks to 5 lines, and a move by 0 returns \<open>changed = true\<close> and scrolls the
  origin to 5.
\<close>

theorem move_zero_changes_counterexample:
  "visibleFoldersCursorY (nav_run 10 (example_folders 20) [MoveBy ''folders'' 9]) = 9 \<and>
   visibleFoldersOriginY (nav_run 10 (example_folders 20) [MoveBy ''folders'' 9]) = 0 \<and>
   fst (moveCursorAndOrigin (nav_run 10 (example_folders 20) [MoveBy ''folders'' 9])
          ''folders'' 0 5) = True \<and>
   visibleFoldersOriginY
     (snd (moveCursorAndOrigin (nav_run 10 (example_folders 20) [MoveBy ''folders'' 9])
             ''folders'' 0 5)) = 5"
  by (simp add: nav_eval)








section \<open>Action menu\<close>

text \<open>
  C7. Menu navigation wraps: with the menu visible and \<open>n > 0\<close> options,
  \<open>NavigateActionMenu(+1)\<close> at index \<open>n - 1\<close> selects index 0 and \<open>NavigateActionMenu(-1)\<close>
  at index 0 selects index \<open>n - 1\<close>, changing nothing else; with the menu hidden or the
  option list empty, \<open>NavigateActionMenu\<close> leaves the state unchanged.
\<close>

theorem NavigateActionMenu_wraps:
  "(isActionMenuVisible s \<and> 0 < go_len (actionMenuOptions s) \<and>
      go_len (actionMenuOptions s) \<le> max_int \<longrightarrow>
      (actionMenuSelectedIdx s = go_len (actionMenuOptions s) - 1 \<longrightarrow>
         NavigateActionMenu s 1 = s\<lparr>actionMenuSelectedIdx := 0\<rparr>) \<and>
      (actionMenuSelectedIdx s = 0 \<longrightarrow>
         NavigateActionMenu s (- 1) =
           s\<lparr>actionMenuSelectedIdx := go_len (actionMenuOptions s) - 1\<rparr>)) \<and>
   (\<not> isActionMenuVisible s \<or> actionMenuOptions s = [] \<longrightarrow> NavigateActionMenu s delta = s)"
proof -
  have a: "NavigateActionMenu s 1 = s\<lparr>actionMenuSelectedIdx := 0\<rparr>"
    if "isActionMenuVisible s" "0 < go_len (actionMenuOptions s)"
      "go_len (actionMenuOptions s) \<le> max_int"
      "actionMenuSelectedIdx s = go_len (actionMenuOptions s) - 1"
  proof -
    have "wrap64 (go_len (actionMenuOptions s) - 1 + 1) = go_len (actionMenuOptions s)"
      using that by (simp add: wrap64_eq max_int_def)
    then show ?thesis using that by (simp add: NavigateActionMenu_def Let_def)
  qed
  have b: "NavigateActionMenu s (- 1) =
           s\<lparr>actionMenuSelectedIdx := go_len (actionMenuOptions s) - 1\<rparr>"
    if "isActionMenuVisible s" "0 < go_len (actionMenuOptions s)"
      "go_len (actionMenuOptions s) \<le> max_int"
      "actionMenuSelectedIdx s = 0"
  proof -
    have "wrap64 (- 1) = - 1" by (simp add: wrap64_def)
    moreover have "wrap64 (go_len (actionMenuOptions s) - 1) = go_len (actionMenuOptions s) - 1"
      using that by (intro wrap64_eq) (simp_all add:  max_int_def)
    ultimately show ?thesis using that by (simp add: NavigateActionMenu_def Let_def)
  qed
  have c: "NavigateActionMenu s delta = s"
    if "\<not> isActionMenuVisible s \<or> actionMenuOptions s = []"
    using that by (auto simp: NavigateActionMenu_def go_len_def)
  show ?thesis using a b c by blast
qed

theorem NavigateActionMenu_wraps_witness:
  "actionMenuSelectedIdx
     (NavigateActionMenu
        (OpenActionMenu example_state example_file example_menu ''files'') (- 1)) = 4 \<and>
   actionMenuSelectedIdx
     (NavigateActionMenu
        ((OpenActionMenu example_state example_file example_menu ''files'')
           \<lparr>actionMenuSelectedIdx := 4\<rparr>) 1) = 0 \<and>
   NavigateActionMenu example_state 1 = example_state"
  using NavigateActionMenu_wraps
          [of "OpenActionMenu example_state example_file example_menu ''files''" 0]
    NavigateActionMenu_wraps
          [of "(OpenActionMenu example_state example_file example_menu ''files'')
                 \<lparr>actionMenuSelectedIdx := 4\<rparr>" 0]
    NavigateActionMenu_wraps [of example_state 1]
  by (simp add: OpenActionMenu_def example_state_def example_menu_def NewAppState_def
      SetDirectoryContents_def go_len_def max_int_def)

text \<open>
  C6, as amended. For every selected item, \<open>handleEnter\<close> opens the action menu on it: the
  menu is visible, its target is the item, the first option is selected, and its options
  are exactly Copy Full Path, Copy Relative Path, Cancel, in that order, when the item is
  a directory; for a file, View Content and \<open>Copy Content (UTF-8)\<close> come between Copy
  Relative Path and Cancel.
\<close>

theorem handleEnter_options:
  assumes "GetCurrentList s viewName = xs" and "xs \<noteq> []"
    and "0 \<le> GetCurrentCursorY s viewName" and "GetCurrentCursorY s viewName < go_len xs"
    and "item = xs ! nat (GetCurrentCursorY s viewName)"
  shows "isActionMenuVisible (handleEnter s (Some viewName)) \<and>
         actionMenuItemTarget (handleEnter s (Some viewName)) = item \<and>
         actionMenuSelectedIdx (handleEnter s (Some viewName)) = 0 \<and>
         previousFocusView (handleEnter s (Some viewName)) = viewName \<and>
         actionMenuOptions (handleEnter s (Some viewName)) =
           (if IsDir item
            then [\<lparr>Label = ''Copy Full Path'', ActionFn = Fn_copyFullPath\<rparr>,
                  \<lparr>Label = ''Copy Relative Path'', ActionFn = Fn_copyRelativePath\<rparr>,
                  \<lparr>Label = ''Cancel'', ActionFn = Fn_cancel\<rparr>]
            else [\<lparr>Label = ''Copy Full Path'', ActionFn = Fn_copyFullPath\<rparr>,
                  \<lparr>Label = ''Copy Relative Path'', ActionFn = Fn_copyRelativePath\<rparr>,
                  \<lparr>Label = ''View Content'', ActionFn = Fn_viewFileContentAction\<rparr>,
                  \<lparr>Label = ''Copy Content (UTF-8)'', ActionFn = Fn_copyContent\<rparr>,
                  \<lparr>Label = ''Cancel'', ActionFn = Fn_cancel\<rparr>])"
  using assms by (simp add: handleEnter_def Let_def go_len_def OpenActionMenu_def)

theorem handleEnter_options_witness:
  "isActionMenuVisible (handleEnter example_state (Some ''files'')) \<and>
   actionMenuItemTarget (handleEnter example_state (Some ''files'')) = example_file \<and>
   actionMenuOptions (handleEnter example_state (Some ''files'')) = example_menu"
  using handleEnter_options [of example_state "''files''" "[example_file]" example_file]
  by (simp add: example_state_def example_file_def example_menu_def GetCurrentList_def
      GetCurrentCursorY_def SetDirectoryContents_def NewAppState_def viewFiles_def
      viewFolders_def go_len_def)

text \<open>
  C6 as stated fails on a label: the fourth option of a file's menu reads
  \<open>Copy Content (UTF-8)\<close>, and no option reads \<open>Copy Content\<close>.
\<close>

theorem handleEnter_label_counterexample:
  "map Label (actionMenuOptions (handleEnter example_state (Some ''files''))) =
     [''Copy Full Path'', ''Copy Relative Path'', ''View Content'', ''Copy Content (UTF-8)'',
      ''Cancel''] \<and>
   map Label (actionMenuOptions (handleEnter example_state (Some ''files''))) \<noteq>
     [''Copy Full Path'', ''Copy Relative Path'', ''View Content'', ''Copy Content'',
      ''Cancel''] \<and>
   ''Copy Content'' \<notin> set (map Label (actionMenuOptions (handleEnter example_state (Some ''files''))))"
  by (simp add: handleEnter_def Let_def go_len_def OpenActionMenu_def example_state_def
      example_file_def GetCurrentList_def GetCurrentCursorY_def SetDirectoryContents_def
      NewAppState_def viewFiles_def viewFolders_def)

section \<open>File content view\<close>

lemma strings_Count_count_list: "strings_Count s sep = int (count_list s sep)"
  unfolding strings_Count_def by (induction s) auto

lemma count_list_le_length: "count_list xs x \<le> length xs"
  by (induction xs) auto

lemma HasSuffix_single: "strings_HasSuffix s [x] \<longleftrightarrow> s \<noteq> [] \<and> last s = x"
proof (cases "s = []")
  case True
  then show ?thesis by (simp add: strings_HasSuffix_def)
next
  case False
  then obtain ys y where s: "s = ys @ [y]" by (metis append_butlast_last_id)
  then show ?thesis by (simp add: strings_HasSuffix_def)
qed

lemma count_list_last_other:
  assumes "s \<noteq> []" "last s \<noteq> x"
  shows "count_list s x < length s"
proof -
  from assms(1) obtain ys y where s: "s = ys @ [y]" by (metis append_butlast_last_id)
  with assms(2) have "y \<noteq> x" by simp
  then have "count_list s x = count_list ys x" using s by simp
  also have "\<dots> \<le> length ys" by (rule count_list_le_length)
  finally show ?thesis using s by simp
qed

text \<open>
  C8. For every content \<open>c\<close>, \<open>SetFileContentView\<close> stores as total lines 1 when \<open>c\<close> is
  empty, the number of newline bytes of \<open>c\<close> when \<open>c\<close> ends with a newline, and that
  number plus 1 otherwise.
\<close>

theorem SetFileContentView_total_lines:
  assumes "go_len c \<le> max_int"
  shows "fileContentViewTotalLines (SetFileContentView s filename c prevFocus) =
           (if c = [] then 1
            else if last c = CHR 0x0A then int (count_list c (CHR 0x0A))
            else int (count_list c (CHR 0x0A)) + 1)"
proof (cases "c = []")
  case True
  then show ?thesis
    by (simp add: SetFileContentView_def Let_def HasSuffix_single go_len_def)
next
  case ne: False
  show ?thesis
  proof (cases "last c = CHR 0x0A")
    case True
    then show ?thesis using ne
      by (simp add: SetFileContentView_def Let_def HasSuffix_single go_len_def newline_def
          strings_Count_count_list)
  next
    case False
    have "count_list c (CHR 0x0A) < length c" using ne False by (rule count_list_last_other)
    then have "int (count_list c (CHR 0x0A)) + 1 \<le> 9223372036854775807"
      using assms by (simp add: go_len_def max_int_def)
    then have "wrap64 (int (count_list c (CHR 0x0A)) + 1) = int (count_list c (CHR 0x0A)) + 1"
      by (intro wrap64_eq) simp_all
    then show ?thesis using ne False
      by (simp add: SetFileContentView_def Let_def HasSuffix_single go_len_def newline_def
          strings_Count_count_list)
  qed
qed

theorem SetFileContentView_total_lines_witness:
  "go_len [CHR ''a'', CHR 0x0A, CHR ''b''] \<le> max_int \<and>
   fileContentViewTotalLines
     (SetFileContentView (NewAppState ''/tmp'') ''f.txt'' [CHR ''a'', CHR 0x0A, CHR ''b''] ''files'') = 2"
  using SetFileContentView_total_lines [of "[CHR ''a'', CHR 0x0A, CHR ''b'']" "NewAppState ''/tmp''" "''f.txt''" "''files''"]
  by (simp add: go_len_def max_int_def)

lemma NavigateActionMenu_keeps:
  "previousFocusView (NavigateActionMenu s d) = previousFocusView s"
  "actionMenuOptions (NavigateActionMenu s d) = actionMenuOptions s"
  "actionMenuItemTarget (NavigateActionMenu s d) = actionMenuItemTarget s"
  "isActionMenuVisible (NavigateActionMenu s d) = isActionMenuVisible s"
  by (simp_all add: NavigateActionMenu_def Let_def)

lemma foldl_NavigateActionMenu_keeps:
  "previousFocusView (foldl NavigateActionMenu s ds) = previousFocusView s \<and>
   actionMenuOptions (foldl NavigateActionMenu s ds) = actionMenuOptions s \<and>
   actionMenuItemTarget (foldl NavigateActionMenu s ds) = actionMenuItemTarget s"
  by (induction ds arbitrary: s) (simp_all add: NavigateActionMenu_keeps)

lemma viewFileContentAction_success:
  assumes "fst (viewFileContentAction e item s) = None"
  shows "\<exists>content. snd (viewFileContentAction e item s) =
           SetFileContentView s (Name item) content
             (if previousFocusView s = [] then viewFolders else previousFocusView s)"
  using assms
  by (auto simp: viewFileContentAction_def Let_def split: if_splits sum.splits option.splits)

lemma SetFileContentView_fields:
  "fileContentViewPrevFocus (SetFileContentView s n c f) = f"
  "isFileContentViewVisible (SetFileContentView s n c f)"
  "isActionMenuVisible (SetFileContentView s n c f) = isActionMenuVisible s"
  by (simp_all add: SetFileContentView_def Let_def)

lemma view_content_stores_focus:
  assumes s: "s = foldl NavigateActionMenu (OpenActionMenu s0 item options f) deltas"
    and idx: "0 \<le> actionMenuSelectedIdx s" "actionMenuSelectedIdx s < go_len options"
    and opt: "options ! nat (actionMenuSelectedIdx s) =
                \<lparr>Label = ''View Content'', ActionFn = Fn_viewFileContentAction\<rparr>"
    and ok: "fst (viewFileContentAction e item s) = None"
  shows "\<exists>content. handleMenuSelect e s =
           ClearMessage (CloseActionMenu
             (SetFileContentView s (Name item) content (if f = [] then viewFolders else f)))"
proof -
  have k: "previousFocusView s = f" "actionMenuOptions s = options"
    "actionMenuItemTarget s = item"
    using foldl_NavigateActionMenu_keeps[of "OpenActionMenu s0 item options f" deltas]
    by (simp_all add: s OpenActionMenu_def)
  obtain content where c: "snd (viewFileContentAction e item s) =
      SetFileContentView s (Name item) content (if f = [] then viewFolders else f)"
    using viewFileContentAction_success[OF ok] k by auto
  have r: "viewFileContentAction e item s =
      (None, SetFileContentView s (Name item) content (if f = [] then viewFolders else f))"
    using ok c by (simp add: prod_eq_iff)
  have "handleMenuSelect e s = ClearMessage (CloseActionMenu
      (SetFileContentView s (Name item) content (if f = [] then viewFolders else f)))"
    using idx opt k r by (simp add: handleMenuSelect_def Let_def)
  then show ?thesis by blast
qed

text \<open>
  C5. The menu is opened by \<open>OpenActionMenu\<close> with the focus view \<open>f\<close> (a view name, so
  not the empty string) and navigated to its View Content entry.  When the action
  succeeds, \<open>handleMenuSelect\<close> leaves the content view open with \<open>f\<close> as its return focus,
  and the menu closed.
\<close>

theorem view_content_return_focus:
  assumes "f \<noteq> []"
    and "s = foldl NavigateActionMenu (OpenActionMenu s0 item options f) deltas"
    and "0 \<le> actionMenuSelectedIdx s" and "actionMenuSelectedIdx s < go_len options"
    and "options ! nat (actionMenuSelectedIdx s) =
           \<lparr>Label = ''View Content'', ActionFn = Fn_viewFileContentAction\<rparr>"
    and "fst (viewFileContentAction e item s) = None"
  shows "fileContentViewPrevFocus (handleMenuSelect e s) = f \<and>
         isFileContentViewVisible (handleMenuSelect e s) \<and>
         \<not> isActionMenuVisible (handleMenuSelect e s)"
proof -
  obtain content where "handleMenuSelect e s =
      ClearMessage (CloseActionMenu
        (SetFileContentView s (Name item) content (if f = [] then viewFolders else f)))"
    using view_content_stores_focus [OF assms(2-6)] by blast
  then show ?thesis using assms(1)
    by (simp add: ClearMessage_def CloseActionMenu_def SetFileContentView_fields)
qed

lemmas menu_eval = example_state_def example_file_def example_menu_def example_env_def
  OpenActionMenu_def NavigateActionMenu_def SetDirectoryContents_def NewAppState_def
  go_len_def wrap64_def Let_def viewFileContentAction_def maxViewSize_def
  strings_ReplaceAll_def SetFileContentView_def strings_Count_def strings_HasSuffix_def
  newline_def viewFolders_def viewFiles_def

theorem view_content_return_focus_witness:
  "fileContentViewPrevFocus
     (handleMenuSelect example_env
        (foldl NavigateActionMenu (handleEnter example_state (Some ''files'')) [1, 1]))
     = ''files'' \<and>
   isFileContentViewVisible
     (handleMenuSelect example_env
        (foldl NavigateActionMenu (handleEnter example_state (Some ''files'')) [1, 1])) \<and>
   \<not> isActionMenuVisible
     (handleMenuSelect example_env
        (foldl NavigateActionMenu (handleEnter example_state (Some ''files'')) [1, 1]))"
proof -
  have enter: "handleEnter example_state (Some ''files'') =
      OpenActionMenu example_state example_file example_menu ''files''"
    by (simp add: handleEnter_def Let_def go_len_def example_state_def example_file_def
        example_menu_def GetCurrentList_def GetCurrentCursorY_def SetDirectoryContents_def
        NewAppState_def viewFiles_def viewFolders_def)
  show ?thesis
    unfolding enter
    using view_content_return_focus [of "''files''"
      "foldl NavigateActionMenu
         (OpenActionMenu example_state example_file example_menu ''files'') [1, 1]"
      example_state example_file example_menu "[1, 1]" example_env]
    by (simp add: menu_eval)
qed

section \<open>Scanner\<close>

lemma walkDir_File:
  "walkDir dir getIcon join path (File name sz) w =
     (RetNil,
      if path = dir then w
      else if sz > Size (w_largestFile w)
      then w\<lparr>w_totalSize := wrap64 (w_totalSize w + sz),
             w_largestFile := found_file getIcon path name sz\<rparr>
      else w\<lparr>w_totalSize := wrap64 (w_totalSize w + sz)\<rparr>)"
  by (simp add: walk_callback_def found_file_def Let_def)

lemma walkDir_DirUnreadable:
  "walkDir dir getIcon join path (DirUnreadable name err es) w =
     (RetNil,
      if w_firstWalkErr w = None
      then w\<lparr>w_firstWalkErr := Some (''accessing '' @ name @ '': '' @ err)\<rparr>
      else w)"
  by (simp add: walk_callback_def Let_def)

lemma walkDir_Dir_top:
  "walkDir dir getIcon join dir (Dir name es) w = walkDirs dir getIcon join dir es w"
  by (simp add: walk_callback_def)

declare walkDir.simps [simp del]

lemma walkDirs_keeps_error:
  assumes "\<forall>d \<in> set es. flat_entry d" and "w_firstWalkErr w = Some m"
  shows "w_firstWalkErr (snd (walkDirs dir getIcon join dir es w)) = Some m"
  using assms
proof (induction es arbitrary: w)
  case Nil
  then show ?case by simp
next
  case (Cons d ds)
  then show ?case
    by (cases d) (simp_all add: walkDir_File walkDir_DirUnreadable)
qed

lemma walkDirs_first_error:
  assumes "\<forall>d \<in> set es. flat_entry d"
    and "DirUnreadable name err sub \<in> set es"
    and "\<forall>n' e' sub'. DirUnreadable n' e' sub' \<in> set es \<longrightarrow> n' = name \<and> e' = err"
    and "w_firstWalkErr w = None"
  shows "w_firstWalkErr (snd (walkDirs dir getIcon join dir es w)) =
           Some (''accessing '' @ name @ '': '' @ err)"
  using assms
proof (induction es arbitrary: w)
  case Nil
  then show ?case by simp
next
  case (Cons d ds)
  have fl: "\<forall>d \<in> set ds. flat_entry d" using Cons.prems(1) by simp
  have uniq: "\<forall>n' e' sub'. DirUnreadable n' e' sub' \<in> set ds \<longrightarrow> n' = name \<and> e' = err"
    using Cons.prems(3) by simp
  show ?case
  proof (cases d)
    case (File n sz)
    have mem: "DirUnreadable name err sub \<in> set ds" using Cons.prems(2) File by simp
    obtain w1 where w1: "walkDir dir getIcon join (join dir n) (File n sz) w = (RetNil, w1)"
      and e1: "w_firstWalkErr w1 = None"
      using Cons.prems(4) by (simp add: walkDir_File)
    have "w_firstWalkErr (snd (walkDirs dir getIcon join dir ds w1)) =
           Some (''accessing '' @ name @ '': '' @ err)"
      using fl mem uniq e1 by (rule Cons.IH)
    then show ?thesis using File w1 by simp
  next
    case (DirUnreadable n' e' sub')
    then have eq: "n' = name" "e' = err" using Cons.prems(3) by simp_all
    define w1 where "w1 = w\<lparr>w_firstWalkErr := Some (''accessing '' @ name @ '': '' @ err)\<rparr>"
    have w1: "walkDir dir getIcon join (join dir n') (DirUnreadable n' e' sub') w = (RetNil, w1)"
      using Cons.prems(4) eq by (simp add: walkDir_DirUnreadable w1_def)
    have "w_firstWalkErr (snd (walkDirs dir getIcon join dir ds w1)) =
           Some (''accessing '' @ name @ '': '' @ err)"
      using fl by (rule walkDirs_keeps_error) (simp add: w1_def)
    then show ?thesis using DirUnreadable w1 by simp
  next
    case (FileNoInfo n e)
    then show ?thesis using Cons.prems(1) by simp
  next
    case (Dir n es')
    then show ?thesis using Cons.prems(1) by simp
  qed
qed

lemma walkDirs_keeps_largest:
  assumes "\<forall>d \<in> set es. flat_entry d"
    and "\<forall>n sz. File n sz \<in> set es \<longrightarrow> sz \<le> Size (w_largestFile w)"
  shows "w_largestFile (snd (walkDirs dir getIcon join dir es w)) = w_largestFile w"
  using assms
proof (induction es arbitrary: w)
  case Nil
  then show ?case by simp
next
  case (Cons d ds)
  show ?case
  proof (cases d)
    case (File n sz)
    then have "sz \<le> Size (w_largestFile w)" using Cons.prems(2) by auto
    then show ?thesis using File Cons.prems Cons.IH
      by (simp add: walkDir_File)
  next
    case (DirUnreadable n' e' sub')
    then show ?thesis using Cons.prems Cons.IH
      by (simp add: walkDir_DirUnreadable)
  next
    case (FileNoInfo n e)
    then show ?thesis using Cons.prems(1) by simp
  next
    case (Dir n es')
    then show ?thesis using Cons.prems(1) by simp
  qed
qed

lemma walkDirs_finds_largest:
  assumes "\<forall>d \<in> set es. flat_entry d"
    and "File name m \<in> set es"
    and "join dir name \<noteq> dir"
    and "\<forall>n sz. File n sz \<in> set es \<longrightarrow> sz < m \<or> (n = name \<and> sz = m)"
    and "Size (w_largestFile w) < m"
  shows "w_largestFile (snd (walkDirs dir getIcon join dir es w)) =
           found_file getIcon (join dir name) name m"
  using assms
proof (induction es arbitrary: w)
  case Nil
  then show ?case by simp
next
  case (Cons d ds)
  have fl: "\<forall>d \<in> set ds. flat_entry d" using Cons.prems(1) by simp
  have rest: "\<forall>n sz. File n sz \<in> set ds \<longrightarrow> sz < m \<or> (n = name \<and> sz = m)"
    using Cons.prems(4) by auto
  show ?case
  proof (cases d)
    case (File n sz)
    consider "n = name \<and> sz = m" | "sz < m" using Cons.prems(4) File by auto
    then show ?thesis
    proof cases
      case 1
      have "sz' \<le> m" if "File n' sz' \<in> set ds" for n' sz'
        using rest that by fastforce
      then have le: "\<forall>n sz. File n sz \<in> set ds \<longrightarrow> sz \<le> m" by blast
      define w1 where "w1 = w\<lparr>w_totalSize := wrap64 (w_totalSize w + m),
             w_largestFile := found_file getIcon (join dir name) name m\<rparr>"
      have w1: "walkDir dir getIcon join (join dir n) (File n sz) w = (RetNil, w1)"
        using 1 Cons.prems(3,5) by (simp add: walkDir_File w1_def)
      have "w_largestFile (snd (walkDirs dir getIcon join dir ds w1)) = w_largestFile w1"
        using fl by (rule walkDirs_keeps_largest) (use le in \<open>simp add: w1_def found_file_def\<close>)
      then show ?thesis using File w1 by (simp add: w1_def)
    next
      case 2
      then have mem: "File name m \<in> set ds" using Cons.prems(2) File by auto
      obtain w1 where w1: "walkDir dir getIcon join (join dir n) (File n sz) w = (RetNil, w1)"
        and s1: "Size (w_largestFile w1) < m"
        using 2 Cons.prems(5) by (simp add: walkDir_File found_file_def)
      have "w_largestFile (snd (walkDirs dir getIcon join dir ds w1)) =
              found_file getIcon (join dir name) name m"
        using fl mem Cons.prems(3) rest s1 by (rule Cons.IH)
      then show ?thesis using File w1 by simp
    qed
  next
    case (DirUnreadable n' e' sub')
    then have mem: "File name m \<in> set ds" using Cons.prems(2) by auto
    obtain w1 where
      w1: "walkDir dir getIcon join (join dir n') (DirUnreadable n' e' sub') w = (RetNil, w1)"
      and s1: "Size (w_largestFile w1) < m"
      using Cons.prems(5) by (simp add: walkDir_DirUnreadable)
    have "w_largestFile (snd (walkDirs dir getIcon join dir ds w1)) =
            found_file getIcon (join dir name) name m"
      using fl mem Cons.prems(3) rest s1 by (rule Cons.IH)
    then show ?thesis using DirUnreadable w1 by simp
  next
    case (FileNoInfo n e)
    then show ?thesis using Cons.prems(1) by simp
  next
    case (Dir n es')
    then show ?thesis using Cons.prems(1) by simp
  qed
qed

text \<open>
  C3. The working directory lists, in any order, three readable files of 10, 500 and 2000
  bytes and one subdirectory that cannot be read.  The committed result then has the
  error sentinel \<open>-2\<close> as total size, the 2000-byte file as largest file (whatever the
  unreadable directory holds is not counted, and the entries after it are still walked),
  and as recorded error the first walk error, which names the unreadable subdirectory.
  The path \<open>filepath.Join\<close> gives the 2000-byte file is not that of the working directory
  itself.
\<close>

theorem scan_with_unreadable_subdir:
  assumes es: "set es = {File n1 10, File n2 500, File n3 2000, DirUnreadable nd err sub}"
    and path: "join (cwd s) n3 \<noteq> cwd s"
  shows "totalSize (calculateStats getIcon join (Inr (Dir base es)) isGitRepo getGitBranch s)
           = - 2 \<and>
         largestFile (calculateStats getIcon join (Inr (Dir base es)) isGitRepo getGitBranch s)
           = \<lparr>Name = n3, Path = join (cwd s) n3, IsDir = False, Size = 2000,
              Icon = getIcon n3 False\<rparr> \<and>
         statsError (calculateStats getIcon join (Inr (Dir base es)) isGitRepo getGitBranch s)
           = Some (''accessing '' @ nd @ '': '' @ err)"
proof -
  define w0 where "w0 = \<lparr>w_totalSize = 0,
                w_largestFile = \<lparr>Name = [], Path = [], IsDir = False, Size = - 1, Icon = []\<rparr>,
                w_firstWalkErr = None\<rparr>"
  define w where "w = snd (walkDirs (cwd s) getIcon join (cwd s) es w0)"
  have flat: "\<forall>d \<in> set es. flat_entry d" unfolding es by simp
  have dir: "DirUnreadable nd err sub \<in> set es" unfolding es by simp
  have uniq: "\<forall>n' e' sub'. DirUnreadable n' e' sub' \<in> set es \<longrightarrow> n' = nd \<and> e' = err"
    unfolding es by simp
  have big: "File n3 2000 \<in> set es" unfolding es by simp
  have others: "\<forall>n sz. File n sz \<in> set es \<longrightarrow> sz < 2000 \<or> (n = n3 \<and> sz = 2000)"
    unfolding es by auto
  have e: "w_firstWalkErr w = Some (''accessing '' @ nd @ '': '' @ err)"
    unfolding w_def using flat dir uniq by (rule walkDirs_first_error) (simp add: w0_def)
  have l: "w_largestFile w = found_file getIcon (join (cwd s) n3) n3 2000"
    unfolding w_def using flat big path others
    by (rule walkDirs_finds_largest) (simp add: w0_def)
  have walk: "WalkDir (cwd s) getIcon join (Inr (Dir base es)) w0 = (None, w)"
    by (simp add: WalkDir_def walkDir_Dir_top w_def)
  have c: "cwd (SetStatsLoading s) = cwd s" by (simp add: SetStatsLoading_def)
  show ?thesis
    by (simp add: calculateStats_def Let_def c w0_def[symmetric] walk e l
        found_file_def SetStatsResults_def)
qed

theorem scan_with_unreadable_subdir_witness:
  "totalSize
     (calculateStats (\<lambda>name isDir. []) (\<lambda>dir name. dir @ ''/'' @ name)
        (Inr (Dir ''tmp''
           [File ''a'' 10, DirUnreadable ''locked'' ''permission denied'' [File ''huge'' 99999],
            File ''b'' 500, File ''c'' 2000]))
        (Inr False) (Inr []) (NewAppState ''/tmp'')) = - 2 \<and>
   largestFile
     (calculateStats (\<lambda>name isDir. []) (\<lambda>dir name. dir @ ''/'' @ name)
        (Inr (Dir ''tmp''
           [File ''a'' 10, DirUnreadable ''locked'' ''permission denied'' [File ''huge'' 99999],
            File ''b'' 500, File ''c'' 2000]))
        (Inr False) (Inr []) (NewAppState ''/tmp''))
     = \<lparr>Name = ''c'', Path = ''/tmp/c'', IsDir = False, Size = 2000, Icon = []\<rparr> \<and>
   statsError
     (calculateStats (\<lambda>name isDir. []) (\<lambda>dir name. dir @ ''/'' @ name)
        (Inr (Dir ''tmp''
           [File ''a'' 10, DirUnreadable ''locked'' ''permission denied'' [File ''huge'' 99999],
            File ''b'' 500, File ''c'' 2000]))
        (Inr False) (Inr []) (NewAppState ''/tmp'')) = Some ''accessing locked: permission denied''"
proof -
  have "set [File ''a'' 10, DirUnreadable ''locked'' ''permission denied'' [File ''huge'' 99999],
             File ''b'' 500, File ''c'' 2000] =
        {File ''a'' 10, File ''b'' 500, File ''c'' 2000,
         DirUnreadable ''locked'' ''permission denied'' [File ''huge'' 99999]}"
    by auto
  from scan_with_unreadable_subdir [OF this, of "\<lambda>dir name. dir @ ''/'' @ name"
      "NewAppState ''/tmp''" "\<lambda>name isDir. []" "''tmp''" "Inr False" "Inr []"]
  show ?thesis by (simp add: NewAppState_def)
qed

end
